theory Spec2Isabelle
  imports Complex_Main
begin

section \<open>Arrays\<close>

text \<open>
  The module \<^verbatim>\<open>dataio/data.py\<close> works on numpy arrays of floats. An array carries its
  shape explicitly (a numpy array of shape \<open>(0, n)\<close> still has \<open>n\<close> columns), and its
  elements as nested lists in C order. Floats are idealised as \<open>real\<close>: no rounding, no
  NaN, no infinities.
\<close>

record 'a array2 =
  nrows :: nat
  ncols :: nat
  cells :: "'a list list"

record 'a array3 =
  dim0 :: nat
  dim1 :: nat
  dim2 :: nat
  cells3 :: "'a list list list"

definition wf2 :: "'a array2 \<Rightarrow> bool" where
  "wf2 a \<longleftrightarrow> length (cells a) = nrows a \<and> list_all (\<lambda>r. length r = ncols a) (cells a)"

definition wf3 :: "'a array3 \<Rightarrow> bool" where
  "wf3 d \<longleftrightarrow> length (cells3 d) = dim0 d \<and>
     list_all (\<lambda>p. length p = dim1 d \<and> list_all (\<lambda>s. length s = dim2 d) p) (cells3 d)"

text \<open>An array of a given shape, from its elements by index.\<close>

definition mk2 :: "nat \<Rightarrow> nat \<Rightarrow> (nat \<Rightarrow> nat \<Rightarrow> 'a) \<Rightarrow> 'a array2" where
  "mk2 r c f = \<lparr>nrows = r, ncols = c, cells = map (\<lambda>i. map (f i) [0..<c]) [0..<r]\<rparr>"

definition at2 :: "'a array2 \<Rightarrow> nat \<Rightarrow> nat \<Rightarrow> 'a" where
  "at2 a i j = cells a ! i ! j"

definition at3 :: "'a array3 \<Rightarrow> nat \<Rightarrow> nat \<Rightarrow> nat \<Rightarrow> 'a" where
  "at3 d i j k = cells3 d ! i ! j ! k"

text \<open>\<^verbatim>\<open>self.data[:, m, :]\<close>, read for \<open>m\<close> in \<^verbatim>\<open>range(self.data.shape[1])\<close>.\<close>

definition getSlice :: "'a array3 \<Rightarrow> nat \<Rightarrow> 'a array2" where
  "getSlice d m = mk2 (dim0 d) (dim2 d) (\<lambda>i k. at3 d i m k)"

text \<open>\<^verbatim>\<open>a[0:r, 0:c]\<close>: a slice never raises, it stops at the array's extent.\<close>

definition crop2 :: "'a array2 \<Rightarrow> nat \<Rightarrow> nat \<Rightarrow> 'a array2" where
  "crop2 a r c = mk2 (min r (nrows a)) (min c (ncols a)) (at2 a)"

datatype error = ValueError string | IndexError string

text \<open>
  \<^verbatim>\<open>self.data[:, m, :] = v\<close>. numpy broadcasts \<open>v\<close> to the shape \<open>(dim0, dim2)\<close> of the
  target: each extent of \<open>v\<close> is the target's or 1; anything else raises ValueError. An
  index \<open>m\<close> beyond the slice axis raises IndexError. The array's shape never changes.
\<close>

definition broadcastable :: "'a array2 \<Rightarrow> nat \<Rightarrow> nat \<Rightarrow> bool" where
  "broadcastable v r c \<longleftrightarrow> (nrows v = r \<or> nrows v = 1) \<and> (ncols v = c \<or> ncols v = 1)"

definition bat2 :: "'a array2 \<Rightarrow> nat \<Rightarrow> nat \<Rightarrow> 'a" where
  "bat2 v i k = at2 v (if nrows v = 1 then 0 else i) (if ncols v = 1 then 0 else k)"

definition assignSlice :: "'a array3 \<Rightarrow> nat \<Rightarrow> 'a array2 \<Rightarrow> error + 'a array3" where
  "assignSlice d m v =
     (if \<not> m < dim1 d then Inl (IndexError ''index out of bounds'')
      else if \<not> broadcastable v (dim0 d) (dim2 d)
        then Inl (ValueError ''could not broadcast input array'')
      else Inr (d\<lparr>cells3 :=
        map (\<lambda>i. map (\<lambda>j. map (\<lambda>k. if j = m then bat2 v i k else at3 d i j k)
          [0..<dim2 d]) [0..<dim1 d]) [0..<dim0 d]\<rparr>))"

section \<open>Python loops\<close>

text \<open>
  \<^verbatim>\<open>range(n)\<close> of Python 2 is the list \<open>[0, ..., n-1]\<close>, empty for \<open>n \<le> 0\<close>.
  A \<^verbatim>\<open>for m in xs:\<close> loop binds the variable \<open>m\<close> of the enclosing function to each
  element in turn; the variable keeps its last value after the loop, and a loop over an
  empty list leaves it as it was. \<open>py_for\<close> threads the variable with the loop's state.
\<close>

definition py_range :: "int \<Rightarrow> nat list" where
  "py_range n = [0..<nat n]"

fun py_for :: "nat list \<Rightarrow> (nat \<Rightarrow> 's \<Rightarrow> 's) \<Rightarrow> nat \<times> 's \<Rightarrow> nat \<times> 's" where
  "py_for [] body (m, s) = (m, s)"
| "py_for (x # xs) body (m, s) = py_for xs body (x, body x s)"

section \<open>The transform primitives\<close>

text \<open>
  \<^verbatim>\<open>pywt.dwt2\<close>, \<^verbatim>\<open>pywt.idwt2\<close>, \<^verbatim>\<open>np.fft.fft\<close> and \<^verbatim>\<open>np.fft.ifft\<close> (along axis 0) are
  library code outside the repository: they are parameters of the model, total functions
  on arrays, with the wavelet's name passed through. None of them is given \<open>level\<close>.
\<close>

type_synonym bands = "real array2 \<times> real array2 \<times> real array2"

record prims =
  dwt2 :: "real array2 \<Rightarrow> string \<Rightarrow> real array2 \<times> bands"
  idwt2 :: "real array2 \<times> bands \<Rightarrow> string \<Rightarrow> real array2"
  fft0 :: "real array2 \<Rightarrow> complex array2"
  ifft0 :: "complex array2 \<Rightarrow> complex array2"

text \<open>
  \<^verbatim>\<open>np.fft.fftshift(x)\<close> and \<^verbatim>\<open>np.fft.ifftshift(x)\<close> with no axes given rotate every
  axis: \<open>fftshift\<close> by \<open>n div 2\<close> (the result is \<open>x[p:] + x[:p]\<close> with \<open>p = (n+1) div 2\<close>),
  \<open>ifftshift\<close> by \<open>-(n div 2)\<close> (the result is \<open>x[p:] + x[:p]\<close> with \<open>p = n div 2\<close>).
\<close>

definition fftshift_ix :: "nat \<Rightarrow> nat \<Rightarrow> nat" where
  "fftshift_ix n i = (i + (n + 1) div 2) mod n"

definition ifftshift_ix :: "nat \<Rightarrow> nat \<Rightarrow> nat" where
  "ifftshift_ix n i = (i + n div 2) mod n"

definition fftshift :: "'a array2 \<Rightarrow> 'a array2" where
  "fftshift a = mk2 (nrows a) (ncols a)
     (\<lambda>i j. at2 a (fftshift_ix (nrows a) i) (fftshift_ix (ncols a) j))"

definition ifftshift :: "'a array2 \<Rightarrow> 'a array2" where
  "ifftshift a = mk2 (nrows a) (ncols a)
     (\<lambda>i j. at2 a (ifftshift_ix (nrows a) i) (ifftshift_ix (ncols a) j))"

section \<open>removeRings\<close>

text \<open>
  \<^verbatim>\<open>y_hat = (np.arange(-my, my, 2, dtype='float')+1) / 2\<close> and
  \<^verbatim>\<open>damp = 1 - np.exp(-np.power(y_hat, 2) / (2 * np.power(sigma, 2)))\<close>.
\<close>

definition y_hat :: "nat \<Rightarrow> real list" where
  "y_hat my = map (\<lambda>i. (of_int (- int my + 2 * int i) + 1) / 2) [0..<my]"

definition dampf :: "real \<Rightarrow> real \<Rightarrow> real" where
  "dampf sigma y = 1 - exp (- (y ^ 2) / (2 * sigma ^ 2))"

definition damp :: "real \<Rightarrow> nat \<Rightarrow> real list" where
  "damp sigma my = map (dampf sigma) (y_hat my)"

text \<open>
  The body of the second inner loop for one sub-band \<^verbatim>\<open>cV[m]\<close>: transform along axis 0,
  shift, multiply row \<open>i\<close> by \<open>damp[i]\<close> (\<^verbatim>\<open>np.transpose(np.tile(damp, (mx, 1)))\<close> has
  \<open>damp[i]\<close> at \<open>[i][j]\<close>), shift back, transform back, take the real part.
\<close>

definition dampBand :: "prims \<Rightarrow> real \<Rightarrow> real array2 \<Rightarrow> real array2" where
  "dampBand P sigma v =
     (let fcV = fftshift (fft0 P v);
          my = nrows fcV; mx = ncols fcV;
          dmp = damp sigma my;
          tiled = mk2 my mx (\<lambda>i j. dmp ! i);
          fcV' = mk2 my mx (\<lambda>i j. at2 fcV i j * of_real (at2 tiled i j));
          back = ifft0 P (ifftshift fcV')
      in mk2 (nrows back) (ncols back) (\<lambda>i j. Re (at2 back i j)))"

text \<open>The three inner loops, each over \<^verbatim>\<open>range(level)\<close>, the last one reversed.\<close>

type_synonym pyramid = "real array2 \<times> real array2 list \<times> real array2 list \<times> real array2 list"

definition dec_step :: "prims \<Rightarrow> string \<Rightarrow> nat \<Rightarrow> pyramid \<Rightarrow> pyramid" where
  "dec_step P wname m s =
     (case s of (im, cH, cV, cD) \<Rightarrow>
        (case dwt2 P im wname of (im', cHt, cVt, cDt) \<Rightarrow>
           (im', cH @ [cHt], cV @ [cVt], cD @ [cDt])))"

definition damp_step :: "prims \<Rightarrow> real \<Rightarrow> nat \<Rightarrow> real array2 list \<Rightarrow> real array2 list" where
  "damp_step P sigma m cV = cV[m := dampBand P sigma (cV ! m)]"

definition rec_step ::
  "prims \<Rightarrow> string \<Rightarrow> real array2 list \<Rightarrow> real array2 list \<Rightarrow> real array2 list \<Rightarrow>
   nat \<Rightarrow> real array2 \<Rightarrow> real array2" where
  "rec_step P wname cH cV cD m nim =
     idwt2 P (crop2 nim (nrows (cH ! m)) (ncols (cH ! m)), (cH ! m, cV ! m, cD ! m)) wname"

text \<open>
  Lines 345 to 372 of one pass of the outer loop, entered with the loop variable \<open>m\<close>
  bound to \<open>m0\<close> and \<open>im\<close> the slice read: the three inner loops, which bind the same
  variable \<open>m\<close>. The result is the value of \<open>m\<close> after them and the reconstruction
  \<open>nim\<close>.
\<close>

definition ringSlice :: "prims \<Rightarrow> int \<Rightarrow> string \<Rightarrow> real \<Rightarrow> nat \<times> real array2 \<Rightarrow> nat \<times> real array2" where
  "ringSlice P level wname sigma mi =
     (case mi of (m0, im) \<Rightarrow>
       (case py_for (py_range level) (dec_step P wname) (m0, (im, [], [], [])) of
         (m1, (im1, cH, cV, cD)) \<Rightarrow>
           (case py_for (py_range level) (damp_step P sigma) (m1, cV) of
             (m2, cV') \<Rightarrow>
               py_for (rev (py_range level)) (rec_step P wname cH cV' cD) (m2, im1))))"

text \<open>
  One pass, lines 344 to 374: the slice \<open>m0\<close> is read, and the reconstruction, cropped to
  the shape of a slice, is assigned to the slice that \<open>m\<close> names after the inner loops.
  It returns the new stack, or the error of the assignment. (\<^verbatim>\<open>self.data[:, m, :]\<close> is
  a view of the stack; nothing is written to the stack between the reading and the
  assignment, and with \<open>level = 0\<close> the assignment copies the slice onto itself, so the
  view is modelled by its value.)
\<close>

definition ringBody :: "prims \<Rightarrow> int \<Rightarrow> string \<Rightarrow> real \<Rightarrow> real array3 \<Rightarrow> nat \<Rightarrow> error + real array3" where
  "ringBody P level wname sigma d m0 =
     (case ringSlice P level wname sigma (m0, getSlice d m0) of
        (m, nim) \<Rightarrow> assignSlice d m (crop2 nim (dim0 d) (dim2 d)))"

text \<open>
  The outer loop over \<^verbatim>\<open>range(self.data.shape[1])\<close>. An exception leaves the loop with
  the stack as the passes before it left it.
\<close>

fun ringLoop :: "(real array3 \<Rightarrow> nat \<Rightarrow> error + real array3) \<Rightarrow> nat list \<Rightarrow> real array3 \<Rightarrow>
    error option \<times> real array3" where
  "ringLoop body [] d = (None, d)"
| "ringLoop body (m # ms) d =
     (case body d m of Inl e \<Rightarrow> (Some e, d) | Inr d' \<Rightarrow> ringLoop body ms d')"

text \<open>The object of class \<^verbatim>\<open>read\<close>.\<close>

record read =
  inputFile :: string
  data :: "real array3"
  white :: "real array3"
  dark :: "real array3"
  center :: real
  angles :: "real list option"

definition removeRings :: "prims \<Rightarrow> int \<Rightarrow> string \<Rightarrow> real \<Rightarrow> read \<Rightarrow> error option \<times> read" where
  "removeRings P level wname sigma self =
     (case ringLoop (ringBody P level wname sigma) (py_range (int (dim1 (data self)))) (data self) of
        (e, d) \<Rightarrow> (e, self\<lparr>data := d\<rparr>))"

text \<open>
  Names for what one pass does: the slice it writes (the value of the loop variable
  after the inner loops) and the array it writes there.
\<close>

definition target :: "int \<Rightarrow> nat \<Rightarrow> nat" where
  "target level m = (if 1 \<le> level then 0 else m)"

definition processed :: "prims \<Rightarrow> int \<Rightarrow> string \<Rightarrow> real \<Rightarrow> real array3 \<Rightarrow> nat \<Rightarrow> real array2" where
  "processed P level wname sigma d m =
     crop2 (snd (ringSlice P level wname sigma (m, getSlice d m))) (dim0 d) (dim2 d)"

definition same_shape :: "'a array3 \<Rightarrow> 'a array3 \<Rightarrow> bool" where
  "same_shape d' d \<longleftrightarrow> dim0 d' = dim0 d \<and> dim1 d' = dim1 d \<and> dim2 d' = dim2 d"

text \<open>Every slice's cropped reconstruction can be assigned to a slice of the stack.\<close>

definition fits :: "prims \<Rightarrow> int \<Rightarrow> string \<Rightarrow> real \<Rightarrow> real array3 \<Rightarrow> bool" where
  "fits P level wname sigma d \<longleftrightarrow>
     list_all (\<lambda>m. broadcastable (processed P level wname sigma d m) (dim0 d) (dim2 d)) [0..<dim1 d]"

definition agree_from :: "real array3 \<Rightarrow> nat \<Rightarrow> real array3 \<Rightarrow> bool" where
  "agree_from d k d' \<longleftrightarrow>
     same_shape d' d \<and> (\<forall>j. k \<le> j \<and> j < dim1 d \<longrightarrow> getSlice d' j = getSlice d j)"



section \<open>optimizeCenter\<close>

text \<open>
  \<^verbatim>\<open>np.min\<close> and \<^verbatim>\<open>np.max\<close> of \<^verbatim>\<open>recon.data\<close>: they raise ValueError on an array with no
  element. \<^verbatim>\<open>recon.data\<close> is kept as the list of its elements: only its extremes, its
  \<^verbatim>\<open>size\<close> and its histogram are read.
\<close>

definition np_min :: "real list \<Rightarrow> error + real" where
  "np_min xs = (if xs = [] then Inl (ValueError ''zero-size array to reduction operation minimum'')
     else Inr (Min (set xs)))"

definition np_max :: "real list \<Rightarrow> error + real" where
  "np_max xs = (if xs = [] then Inl (ValueError ''zero-size array to reduction operation maximum'')
     else Inr (Max (set xs)))"

text \<open>
  \<^verbatim>\<open>np.histogram(a, bins=n, range=[lo, hi])\<close>, from numpy's documentation: the edges are
  \<^verbatim>\<open>linspace(lo, hi, n+1)\<close>; every bin is half open but the last, which holds its right
  edge; values outside the range are ignored; an empty range \<open>lo = hi\<close> is widened by
  one half on each side; \<open>hi < lo\<close> raises.
\<close>

definition bin_edge :: "real \<Rightarrow> real \<Rightarrow> nat \<Rightarrow> nat \<Rightarrow> real" where
  "bin_edge mn mx bins i = mn + (mx - mn) * real i / real bins"

definition in_bin :: "real \<Rightarrow> real \<Rightarrow> nat \<Rightarrow> nat \<Rightarrow> real \<Rightarrow> bool" where
  "in_bin mn mx bins b x \<longleftrightarrow>
     bin_edge mn mx bins b \<le> x \<and>
     (if Suc b = bins then x \<le> bin_edge mn mx bins bins else x < bin_edge mn mx bins (Suc b))"

definition np_histogram :: "real list \<Rightarrow> nat \<Rightarrow> real \<Rightarrow> real \<Rightarrow> error + nat list" where
  "np_histogram a bins lo hi =
     (if hi < lo then Inl (ValueError ''max must be larger than min in range parameter.'')
      else let mn = (if lo = hi then lo - 1 / 2 else lo);
               mx = (if lo = hi then hi + 1 / 2 else hi)
           in Inr (map (\<lambda>b. length (filter (in_bin mn mx bins b) a)) [0..<bins]))"

text \<open>\<^verbatim>\<open>np.dot\<close> of two vectors.\<close>

definition dot :: "real list \<Rightarrow> real list \<Rightarrow> real" where
  "dot xs ys = sum_list (map2 (*) xs ys)"

text \<open>
  An argument that may be a scalar or not (\<^verbatim>\<open>np.isscalar\<close>), and the optimizer, which
  is library code (\<^verbatim>\<open>scipy.optimize.minimize\<close>, Nelder-Mead): it is a strategy that either
  returns \<^verbatim>\<open>res.x\<close> or asks for the cost at a candidate and goes on from the answer.
\<close>

datatype pyarg = Scalar real | NonScalar "real list"

datatype strategy = Return real | Evaluate real "real \<Rightarrow> strategy"

text \<open>
  The parameters: \<^verbatim>\<open>recon.run(reconInput, sliceNo=...)\<close> of \<^verbatim>\<open>tomoRecon\<close>, which reads the
  stack object (its data and its center) and leaves the elements of \<^verbatim>\<open>recon.data\<close>;
  \<^verbatim>\<open>ndimage.filters.gaussian_filter\<close>; and the optimizer started at \<open>x0\<close> with
  tolerance \<open>tol\<close>. \<^verbatim>\<open>tomoRecon\<close> is not among the sources: as the spec's external interface
  has it, a run is a function of the stack object and the slice, and leaves the stack
  object as it is.
\<close>

record env =
  reconstruct :: "read \<Rightarrow> int \<Rightarrow> real list"
  gaussian_filter :: "real list \<Rightarrow> real \<Rightarrow> real list"
  minimize :: "real \<Rightarrow> real \<Rightarrow> strategy"

text \<open>
  The state optimizeCenter works on: the stack object, \<^verbatim>\<open>recon.data\<close>, and two logs
  kept for the proofs: the calls of \<^verbatim>\<open>recon.run\<close> (the center of the stack at the call and
  the slice), and the candidates \<^verbatim>\<open>_costFunc\<close> was called with.
\<close>

record ostate =
  stack :: read
  recon_data :: "real list"
  runs :: "(real \<times> int) list"
  evals :: "real list"

definition init_state :: "read \<Rightarrow> ostate" where
  "init_state self = \<lparr>stack = self, recon_data = [], runs = [], evals = []\<rparr>"

definition recon_run :: "env \<Rightarrow> int \<Rightarrow> ostate \<Rightarrow> ostate" where
  "recon_run E sliceNo st =
     st\<lparr>recon_data := reconstruct E (stack st) sliceNo,
        runs := runs st @ [(center (stack st), sliceNo)]\<rparr>"

text \<open>\<^verbatim>\<open>_costFunc\<close>, lines 259 to 269. The histogram it builds is \<open>costHist\<close>.\<close>

definition costHist :: "env \<Rightarrow> ostate \<Rightarrow> real \<Rightarrow> real \<Rightarrow> real \<Rightarrow> error + nat list" where
  "costHist E st histMin histMax filterSigma =
     np_histogram (gaussian_filter E (recon_data st) filterSigma) 64 histMin histMax"

definition costFunc ::
  "env \<Rightarrow> int \<Rightarrow> real \<Rightarrow> real \<Rightarrow> real \<Rightarrow> real \<Rightarrow> ostate \<Rightarrow> (error + real) \<times> ostate" where
  "costFunc E sliceNo histMin histMax filterSigma c st =
     (let st1 = st\<lparr>stack := (stack st)\<lparr>center := c\<rparr>, evals := evals st @ [c]\<rparr>;
          st2 = recon_run E sliceNo st1
      in case costHist E st2 histMin histMax filterSigma of
           Inl e \<Rightarrow> (Inl e, st2)
         | Inr histr \<Rightarrow>
             (let p = map (\<lambda>n. real n / real (length (recon_data st2)) + 1 / 10 ^ 12) histr
              in (Inr (- dot p (map (log 2) p)), st2)))"

text \<open>The optimizer running against a cost function that works on the state.\<close>

primrec run_strategy ::
  "(real \<Rightarrow> ostate \<Rightarrow> (error + real) \<times> ostate) \<Rightarrow> strategy \<Rightarrow> ostate \<Rightarrow> (error + real) \<times> ostate" where
  "run_strategy f (Return x) = (\<lambda>st. (Inr x, st))"
| "run_strategy f (Evaluate c k) =
     (\<lambda>st. case f c st of
        (Inl e, st') \<Rightarrow> (Inl e, st')
      | (Inr v, st') \<Rightarrow> run_strategy f (k v) st')"

text \<open>Lines 220 to 228: the defaults and the two checks. \<^verbatim>\<open>/\<close> on two ints is Python 2's
  integer division.\<close>

definition check_sliceNo :: "nat \<Rightarrow> int option \<Rightarrow> error + int" where
  "check_sliceNo numSlices sliceNo =
     (case sliceNo of
        None \<Rightarrow> Inr (int (numSlices div 2))
      | Some s \<Rightarrow>
          if s > int numSlices
          then Inl (ValueError ''sliceNo is higher than number of available slices.'')
          else Inr s)"

definition check_inCenter :: "nat \<Rightarrow> pyarg option \<Rightarrow> error + real" where
  "check_inCenter numPixels inCenter =
     (case inCenter of
        None \<Rightarrow> Inr (real (numPixels div 2))
      | Some (Scalar c) \<Rightarrow> Inr c
      | Some (NonScalar xs) \<Rightarrow> Inl (ValueError ''inCenter must be a scalar.''))"

text \<open>Lines 233 to 245: the bounds of the histogram, from the probe when not given.\<close>

definition derive_histMin :: "real option \<Rightarrow> real list \<Rightarrow> error + real" where
  "derive_histMin histMin rd =
     (case histMin of
        Some h \<Rightarrow> Inr h
      | None \<Rightarrow>
          (case np_min rd of
             Inl e \<Rightarrow> Inl e
           | Inr h \<Rightarrow> Inr (if h < 0 then 2 * h else if h \<ge> 0 then (1 / 2) * h else h)))"

definition derive_histMax :: "real option \<Rightarrow> real list \<Rightarrow> error + real" where
  "derive_histMax histMax rd =
     (case histMax of
        Some h \<Rightarrow> Inr h
      | None \<Rightarrow>
          (case np_max rd of
             Inl e \<Rightarrow> Inl e
           | Inr h \<Rightarrow> Inr (if h < 0 then (1 / 2) * h else if h \<ge> 0 then 2 * h else h)))"

text \<open>Lines 231 to 245: the probe, run on \<^verbatim>\<open>self\<close> as it is, and the two bounds.\<close>

definition probe_bounds ::
  "env \<Rightarrow> int \<Rightarrow> real option \<Rightarrow> real option \<Rightarrow> ostate \<Rightarrow> (error + real \<times> real) \<times> ostate" where
  "probe_bounds E sliceNo histMin histMax st =
     (let st1 = recon_run E sliceNo st
      in case derive_histMin histMin (recon_data st1) of
           Inl e \<Rightarrow> (Inl e, st1)
         | Inr lo \<Rightarrow>
             (case derive_histMax histMax (recon_data st1) of
                Inl e \<Rightarrow> (Inl e, st1)
              | Inr hi \<Rightarrow> (Inr (lo, hi), st1)))"

text \<open>
  optimizeCenter. It returns \<^verbatim>\<open>res.x\<close> or the exception raised, with the state at that
  moment.
\<close>

definition optimizeCenter ::
  "env \<Rightarrow> int option \<Rightarrow> pyarg option \<Rightarrow> real option \<Rightarrow> real option \<Rightarrow> real \<Rightarrow> real \<Rightarrow> read \<Rightarrow>
   (error + real) \<times> ostate" where
  "optimizeCenter E sliceNo inCenter histMin histMax tol filterSigma self =
     (let numSlices = dim1 (data self);
          numPixels = dim2 (data self);
          st0 = init_state self
      in case check_sliceNo numSlices sliceNo of
           Inl e \<Rightarrow> (Inl e, st0)
         | Inr s \<Rightarrow>
             (case check_inCenter numPixels inCenter of
                Inl e \<Rightarrow> (Inl e, st0)
              | Inr x0 \<Rightarrow>
                  (case probe_bounds E s histMin histMax st0 of
                     (Inl e, st1) \<Rightarrow> (Inl e, st1)
                   | (Inr (lo, hi), st1) \<Rightarrow>
                       run_strategy (costFunc E s lo hi filterSigma) (minimize E x0 tol) st1)))"

text \<open>Counting, for the facts about the histogram.\<close>

definition ind :: "bool \<Rightarrow> nat" where
  "ind b = (if b then 1 else 0)"

text \<open>
  The stack object of a state is \<open>self\<close> but for its center, and its center is the last
  candidate evaluated, or the center of \<open>self\<close> when none was.
\<close>

definition tracks :: "read \<Rightarrow> ostate \<Rightarrow> bool" where
  "tracks self st \<longleftrightarrow> stack st = self\<lparr>center := last (center self # evals st)\<rparr>"

section \<open>Instances for concrete evaluation\<close>

text \<open>
  Small instances of the parameters, to evaluate the definitions at concrete inputs:
  a decomposition that hands the image on as every band, a reconstruction that adds the
  approximation and the horizontal and vertical bands, and transforms that change
  nothing; a reconstruction operator that returns the center it is run at, an identity
  filter, and an optimizer that evaluates \<open>x0\<close> and \<open>x0 + 1\<close> and returns \<open>x0\<close>.
\<close>

definition demoPrims :: prims where
  "demoPrims = \<lparr>
     dwt2 = (\<lambda>im w. (im, (im, im, im))),
     idwt2 = (\<lambda>(a, (h, v, d)) w.
       mk2 (nrows a) (ncols a) (\<lambda>i j. at2 a i j + at2 h i j + at2 v i j)),
     fft0 = (\<lambda>a. mk2 (nrows a) (ncols a) (\<lambda>i j. complex_of_real (at2 a i j))),
     ifft0 = (\<lambda>a. a) \<rparr>"

definition demoEnv :: env where
  "demoEnv = \<lparr>
     reconstruct = (\<lambda>r s. [center r]),
     gaussian_filter = (\<lambda>xs sg. xs),
     minimize = (\<lambda>x0 tol. Evaluate x0 (\<lambda>a. Evaluate (x0 + 1) (\<lambda>b. Return x0))) \<rparr>"

definition mkRead :: "real array3 \<Rightarrow> real \<Rightarrow> read" where
  "mkRead d c = \<lparr>inputFile = ''demo.h5'', data = d, white = d, dark = d, center = c, angles = None\<rparr>"

definition stack12 :: "real array3" where
  "stack12 = \<lparr>dim0 = 1, dim1 = 2, dim2 = 1, cells3 = [[[1], [2]]]\<rparr>"

definition stack11 :: "real array3" where
  "stack11 = \<lparr>dim0 = 1, dim1 = 1, dim2 = 1, cells3 = [[[1]]]\<rparr>"

definition stack15 :: "real array3" where
  "stack15 = \<lparr>dim0 = 1, dim1 = 1, dim2 = 5, cells3 = [[[1, 1, 1, 1, 1]]]\<rparr>"

text \<open>
  The stack of the scenario: 3 projections, 4 slices, 4 pixels, every element 1; a slice
  of it; an array of zeros; and primitives whose detail bands are zero and whose
  reconstruction adds the four bands.
\<close>

definition zeros :: "nat \<Rightarrow> nat \<Rightarrow> ('a::zero) array2" where
  "zeros r c = mk2 r c (\<lambda>i j. 0)"

definition ones34 :: "real array2" where
  "ones34 = mk2 3 4 (\<lambda>i j. 1)"

definition ones344 :: "real array3" where
  "ones344 = \<lparr>dim0 = 3, dim1 = 4, dim2 = 4,
     cells3 = replicate 3 (replicate 4 (replicate 4 1))\<rparr>"

definition zeroBandPrims :: prims where
  "zeroBandPrims = \<lparr>
     dwt2 = (\<lambda>im w. (im, (zeros (nrows im) (ncols im), zeros (nrows im) (ncols im),
                            zeros (nrows im) (ncols im)))),
     idwt2 = (\<lambda>(a, (h, v, d)) w.
       mk2 (nrows a) (ncols a) (\<lambda>i j. at2 a i j + at2 h i j + at2 v i j + at2 d i j)),
     fft0 = (\<lambda>a. mk2 (nrows a) (ncols a) (\<lambda>i j. complex_of_real (at2 a i j))),
     ifft0 = (\<lambda>a. a) \<rparr>"

section \<open>Facts about arrays\<close>

lemma mk2_dims [simp]: "nrows (mk2 r c f) = r" "ncols (mk2 r c f) = c"
  by (simp_all add: mk2_def)

lemma at2_mk2 [simp]: "i < r \<Longrightarrow> j < c \<Longrightarrow> at2 (mk2 r c f) i j = f i j"
  by (simp add: mk2_def at2_def)

lemma mk2_cong: "(\<And>i j. i < r \<Longrightarrow> j < c \<Longrightarrow> f i j = g i j) \<Longrightarrow> mk2 r c f = mk2 r c g"
  by (simp add: mk2_def)

lemma wf2_mk2 [simp]: "wf2 (mk2 r c f)"
  by (simp add: wf2_def mk2_def list_all_iff)

lemma py_for_eq: "py_for xs body (m, s) = (if xs = [] then m else last xs, fold body xs s)"
  by (induction xs arbitrary: m s) auto

lemma py_range_nonpos [simp]: "level \<le> 0 \<Longrightarrow> py_range level = []"
  by (simp add: py_range_def)

lemma py_range_pos: "1 \<le> level \<Longrightarrow> py_range level \<noteq> [] \<and> hd (py_range level) = 0"
  by (simp add: py_range_def hd_upt)

lemma ringSlice_level0: "level \<le> 0 \<Longrightarrow> ringSlice P level wname sigma (m0, im) = (m0, im)"
  by (simp add: ringSlice_def)

lemma ringSlice_index: "1 \<le> level \<Longrightarrow> fst (ringSlice P level wname sigma (m0, im)) = 0"
  using py_range_pos[of level]
  by (simp add: ringSlice_def py_for_eq split: prod.splits add: last_rev)

lemma nested_nth:
  assumes "length xss = n0"
    and "list_all (\<lambda>p. length p = n1 \<and> list_all (\<lambda>s. length s = n2) p) xss"
  shows "map (\<lambda>i. map (\<lambda>j. map (\<lambda>k. xss ! i ! j ! k) [0..<n2]) [0..<n1]) [0..<n0] = xss"
proof (rule nth_equalityI)
  show "length (map (\<lambda>i. map (\<lambda>j. map (\<lambda>k. xss ! i ! j ! k) [0..<n2]) [0..<n1]) [0..<n0]) = length xss"
    using assms by simp
next
  fix i assume "i < length (map (\<lambda>i. map (\<lambda>j. map (\<lambda>k. xss ! i ! j ! k) [0..<n2]) [0..<n1]) [0..<n0])"
  then have i: "i < n0" by simp
  with assms have p: "length (xss ! i) = n1" "list_all (\<lambda>s. length s = n2) (xss ! i)"
    by (auto simp: list_all_length)
  have "map (\<lambda>j. map (\<lambda>k. xss ! i ! j ! k) [0..<n2]) [0..<n1] = xss ! i"
  proof (rule nth_equalityI)
    show "length (map (\<lambda>j. map (\<lambda>k. xss ! i ! j ! k) [0..<n2]) [0..<n1]) = length (xss ! i)"
      using p by simp
  next
    fix j assume "j < length (map (\<lambda>j. map (\<lambda>k. xss ! i ! j ! k) [0..<n2]) [0..<n1])"
    then have j: "j < n1" by simp
    with p have "length (xss ! i ! j) = n2" by (auto simp: list_all_length)
    then have "map (\<lambda>k. xss ! i ! j ! k) [0..<n2] = xss ! i ! j"
      by (metis map_nth)
    with j show "map (\<lambda>j. map (\<lambda>k. xss ! i ! j ! k) [0..<n2]) [0..<n1] ! j = xss ! i ! j"
      by simp
  qed
  with i show "map (\<lambda>i. map (\<lambda>j. map (\<lambda>k. xss ! i ! j ! k) [0..<n2]) [0..<n1]) [0..<n0] ! i = xss ! i"
    by simp
qed

lemma assignSlice_dims:
  "assignSlice d m v = Inr d' \<Longrightarrow> dim0 d' = dim0 d \<and> dim1 d' = dim1 d \<and> dim2 d' = dim2 d"
  by (auto simp: assignSlice_def split: if_splits)

lemma assignSlice_wf3: "assignSlice d m v = Inr d' \<Longrightarrow> wf3 d'"
  by (auto simp: assignSlice_def wf3_def list_all_iff split: if_splits)

lemma at3_assignSlice:
  "assignSlice d m v = Inr d' \<Longrightarrow> i < dim0 d \<Longrightarrow> j < dim1 d \<Longrightarrow> k < dim2 d \<Longrightarrow>
   at3 d' i j k = (if j = m then bat2 v i k else at3 d i j k)"
  by (auto simp: assignSlice_def at3_def split: if_splits)

lemma getSlice_assignSlice_other:
  "assignSlice d m v = Inr d' \<Longrightarrow> j < dim1 d \<Longrightarrow> j \<noteq> m \<Longrightarrow> getSlice d' j = getSlice d j"
  unfolding getSlice_def
  using assignSlice_dims[of d m v d']
  by (auto intro!: mk2_cong simp: at3_assignSlice)

lemma assignSlice_index: "assignSlice d m v = Inr d' \<Longrightarrow> m < dim1 d \<and> broadcastable v (dim0 d) (dim2 d)"
  by (simp add: assignSlice_def split: if_splits)

lemma getSlice_assignSlice_same:
  assumes "assignSlice d m v = Inr d'"
  shows "getSlice d' m = mk2 (dim0 d) (dim2 d) (bat2 v)"
proof -
  have m: "m < dim1 d" using assms assignSlice_index by blast
  have "dim0 d' = dim0 d" "dim2 d' = dim2 d" using assms assignSlice_dims by blast+
  then show ?thesis
    unfolding getSlice_def using m by (auto intro!: mk2_cong simp: at3_assignSlice[OF assms])
qed

lemma assignSlice_self:
  assumes "wf3 d" "m < dim1 d"
  shows "assignSlice d m (crop2 (getSlice d m) (dim0 d) (dim2 d)) = Inr d"
proof -
  let ?v = "crop2 (getSlice d m) (dim0 d) (dim2 d)"
  have dims: "nrows ?v = dim0 d" "ncols ?v = dim2 d"
    by (simp_all add: crop2_def getSlice_def)
  have val: "bat2 ?v i k = at3 d i m k" if "i < dim0 d" "k < dim2 d" for i k
    using that dims by (auto simp: bat2_def crop2_def getSlice_def)
  have "map (\<lambda>i. map (\<lambda>j. map (\<lambda>k. if j = m then bat2 ?v i k else at3 d i j k)
          [0..<dim2 d]) [0..<dim1 d]) [0..<dim0 d]
      = map (\<lambda>i. map (\<lambda>j. map (\<lambda>k. cells3 d ! i ! j ! k) [0..<dim2 d]) [0..<dim1 d]) [0..<dim0 d]"
    by (auto simp: val at3_def)
  also have "\<dots> = cells3 d"
    using assms(1) by (intro nested_nth) (auto simp: wf3_def)
  finally show ?thesis
    using assms(2) dims by (simp add: assignSlice_def broadcastable_def)
qed

lemma ringSlice_fst: "fst (ringSlice P level wname sigma (m0, im)) = target level m0"
  using ringSlice_index[of level P wname sigma m0 im] ringSlice_level0[of level P wname sigma m0 im]
  by (auto simp: target_def)

lemma ringBody_eq:
  "ringBody P level wname sigma d m = assignSlice d (target level m) (processed P level wname sigma d m)"
  using ringSlice_fst[of P level wname sigma m "getSlice d m"]
  by (cases "ringSlice P level wname sigma (m, getSlice d m)") (simp add: ringBody_def processed_def)

lemma target_le: "target level m \<le> m"
  by (simp add: target_def)

lemma processed_cong:
  "getSlice d' m = getSlice d m \<Longrightarrow> dim0 d' = dim0 d \<Longrightarrow> dim2 d' = dim2 d \<Longrightarrow>
   processed P level wname sigma d' m = processed P level wname sigma d m"
  by (simp add: processed_def)

lemma ringBody_dims:
  "ringBody P level wname sigma d m = Inr d' \<Longrightarrow>
   dim0 d' = dim0 d \<and> dim1 d' = dim1 d \<and> dim2 d' = dim2 d \<and> wf3 d'"
  using assignSlice_dims assignSlice_wf3 by (simp add: ringBody_eq) blast

lemma ringBody_error:
  assumes "ringBody P level wname sigma d m = Inl e" "m < dim1 d"
  shows "e = ValueError ''could not broadcast input array''
    \<and> \<not> broadcastable (processed P level wname sigma d m) (dim0 d) (dim2 d)"
proof -
  have "target level m < dim1 d" using assms(2) target_le[of level m] by simp
  then show ?thesis using assms(1) by (auto simp: ringBody_eq assignSlice_def split: if_splits)
qed

lemma ringLoop_preserves:
  assumes "\<And>d m d'. Q d \<Longrightarrow> body d m = Inr d' \<Longrightarrow> Q d'"
  shows "Q d \<Longrightarrow> ringLoop body ms d = (e, d') \<Longrightarrow> Q d'"
proof (induction ms arbitrary: d)
  case Nil
  then show ?case by simp
next
  case (Cons m ms)
  then show ?case using assms by (auto split: sum.splits)
qed

lemma ringLoop_error:
  assumes "\<And>d m d'. Q d \<Longrightarrow> body d m = Inr d' \<Longrightarrow> Q d'"
  shows "Q d \<Longrightarrow> ringLoop body ms d = (Some e, d') \<Longrightarrow>
    \<exists>d'' m. Q d'' \<and> m \<in> set ms \<and> body d'' m = Inl e"
proof (induction ms arbitrary: d)
  case Nil
  then show ?case by simp
next
  case (Cons m ms)
  show ?case
  proof (cases "body d m")
    case (Inl e')
    with Cons.prems show ?thesis by auto
  next
    case (Inr d1)
    with Cons.prems assms have "Q d1" "ringLoop body ms d1 = (Some e, d')" by auto
    from Cons.IH[OF this] show ?thesis by auto
  qed
qed

lemma ringLoop_upt:
  assumes "k \<le> n" "I k d"
    and step: "\<And>m d. m < n \<Longrightarrow> I m d \<Longrightarrow> \<exists>d'. body d m = Inr d' \<and> I (Suc m) d'"
  shows "\<exists>d'. ringLoop body [k..<n] d = (None, d') \<and> I n d'"
  using assms(1,2)
proof (induction "n - k" arbitrary: k d)
  case 0
  then show ?case by simp
next
  case (Suc x)
  then have kn: "k < n" by simp
  from step[OF kn Suc.prems(2)] obtain d1 where d1: "body d k = Inr d1" "I (Suc k) d1"
    by auto
  have "x = n - Suc k" "Suc k \<le> n" using Suc.hyps(2) kn by simp_all
  from Suc.hyps(1)[OF this d1(2)] obtain d' where "ringLoop body [Suc k..<n] d1 = (None, d')" "I n d'"
    by auto
  with d1(1) kn show ?case by (simp add: upt_conv_Cons)
qed


lemma ringLoop_fixed: "(\<And>m. m \<in> set ms \<Longrightarrow> body d m = Inr d) \<Longrightarrow> ringLoop body ms d = (None, d)"
  by (induction ms) auto

lemma processed_level0:
  "level \<le> 0 \<Longrightarrow> processed P level wname sigma d m = crop2 (getSlice d m) (dim0 d) (dim2 d)"
  by (simp add: processed_def ringSlice_level0)

lemma ringBody_level0:
  "level \<le> 0 \<Longrightarrow> wf3 d \<Longrightarrow> m < dim1 d \<Longrightarrow> ringBody P level wname sigma d m = Inr d"
  by (simp add: ringBody_eq processed_level0 target_def assignSlice_self)

text \<open>
  C10. With \<open>level = 0\<close> none of the inner loops runs: no primitive is called, every
  pass assigns a slice to itself, and removeRings returns with the object as it was,
  whatever the primitives, the wavelet and \<open>sigma\<close> are.
\<close>

theorem removeRings_level0_identity:
  assumes "wf3 (data self)"
  shows "removeRings P 0 wname sigma self = (None, self)"
proof -
  have "ringLoop (ringBody P 0 wname sigma) (py_range (int (dim1 (data self)))) (data self)
      = (None, data self)"
    using assms by (intro ringLoop_fixed ringBody_level0) (simp_all add: py_range_def)
  then show ?thesis by (simp add: removeRings_def)
qed

text \<open>
  C6. Whatever \<open>level\<close> is and however removeRings ends (normally or with an
  exception), the stack has the shape it had before, and its elements still fill that
  shape.
\<close>

theorem removeRings_shape:
  assumes "wf3 (data self)" "removeRings P level wname sigma self = (e, self')"
  shows "same_shape (data self') (data self) \<and> wf3 (data self')"
proof -
  let ?Q = "\<lambda>d. same_shape d (data self) \<and> wf3 d"
  obtain e' d' where loop:
    "ringLoop (ringBody P level wname sigma) (py_range (int (dim1 (data self)))) (data self) = (e', d')"
    by (cases "ringLoop (ringBody P level wname sigma) (py_range (int (dim1 (data self)))) (data self)")
  have "?Q d'"
  proof (rule ringLoop_preserves[where Q = ?Q, OF _ _ loop])
    show "?Q (data self)" using assms(1) by (simp add: same_shape_def)
  next
    fix d m d1 assume "?Q d" "ringBody P level wname sigma d m = Inr d1"
    then show "?Q d1" using ringBody_dims[of P level wname sigma d m d1] by (simp add: same_shape_def)
  qed
  moreover have "data self' = d'" using assms(2) loop by (auto simp: removeRings_def)
  ultimately show ?thesis by simp
qed

lemma assignSlice_ok:
  "m < dim1 d \<Longrightarrow> broadcastable v (dim0 d) (dim2 d) \<Longrightarrow> \<exists>d'. assignSlice d m v = Inr d'"
  by (simp add: assignSlice_def)

lemma ringLoop_error_kind:
  assumes "ringLoop (ringBody P level wname sigma) [0..<dim1 d] d = (Some e, d')"
  shows "e = ValueError ''could not broadcast input array''"
proof -
  let ?Q = "\<lambda>x. dim1 x = dim1 d"
  have "\<exists>d'' m. ?Q d'' \<and> m \<in> set [0..<dim1 d] \<and> ringBody P level wname sigma d'' m = Inl e"
  proof (rule ringLoop_error[where Q = ?Q, OF _ _ assms])
    show "?Q d" by simp
  next
    fix x m x' assume "?Q x" "ringBody P level wname sigma x m = Inr x'"
    then show "?Q x'" using ringBody_dims[of P level wname sigma x m x'] by simp
  qed
  then obtain d'' m where "dim1 d'' = dim1 d" "m < dim1 d" "ringBody P level wname sigma d'' m = Inl e"
    by auto
  then show ?thesis using ringBody_error[of P level wname sigma d'' m e] by simp
qed

lemma ringBody_step:
  assumes "broadcastable (processed P level wname sigma d m) (dim0 d) (dim2 d)"
    and "m < dim1 d" "agree_from d m x"
  shows "\<exists>x'. ringBody P level wname sigma x m = Inr x' \<and> agree_from d (Suc m) x'
     \<and> getSlice x' (target level m) = mk2 (dim0 d) (dim2 d) (bat2 (processed P level wname sigma d m))
     \<and> (\<forall>j. j < dim1 d \<and> j \<noteq> target level m \<longrightarrow> getSlice x' j = getSlice x j)"
proof -
  have sh: "dim0 x = dim0 d" "dim1 x = dim1 d" "dim2 x = dim2 d"
    using assms(3) by (simp_all add: agree_from_def same_shape_def)
  have "getSlice x m = getSlice d m" using assms(2,3) by (simp add: agree_from_def)
  then have pr: "processed P level wname sigma x m = processed P level wname sigma d m"
    using sh by (intro processed_cong) simp_all
  note bc = assms(1)
  have t: "target level m < dim1 x" using assms(2) sh target_le[of level m] by simp
  from assignSlice_ok[OF t] bc sh pr obtain x' where
    x': "assignSlice x (target level m) (processed P level wname sigma x m) = Inr x'"
    by auto
  have oth: "getSlice x' j = getSlice x j" if "j < dim1 d" "j \<noteq> target level m" for j
    using getSlice_assignSlice_other[OF x'] that sh by simp
  have "agree_from d (Suc m) x'"
    unfolding agree_from_def same_shape_def
  proof (intro conjI allI impI)
    show "dim0 x' = dim0 d" "dim1 x' = dim1 d" "dim2 x' = dim2 d"
      using assignSlice_dims[OF x'] sh by simp_all
  next
    fix j assume j: "Suc m \<le> j \<and> j < dim1 d"
    then have "j \<noteq> target level m" using target_le[of level m] by simp
    with j have "getSlice x' j = getSlice x j" using oth by simp
    also have "\<dots> = getSlice d j" using assms(3) j by (simp add: agree_from_def)
    finally show "getSlice x' j = getSlice d j" .
  qed
  moreover have "getSlice x' (target level m) = mk2 (dim0 d) (dim2 d) (bat2 (processed P level wname sigma d m))"
    using getSlice_assignSlice_same[OF x'] sh pr by simp
  ultimately show ?thesis using x' oth by (auto simp: ringBody_eq)
qed






section \<open>Concrete evaluations of removeRings\<close>

lemma upt_2: "[0..<2] = [0, Suc 0]"
  by (simp add: upt_rec)

lemma py_range_2: "py_range 2 = [0, Suc 0]"
  by (simp add: py_range_def upt_2)

lemma crop2_mk2_same: "crop2 (mk2 r c f) r c = mk2 r c f"
  unfolding crop2_def by (rule trans[OF _ mk2_cong[OF refl]]) (simp_all add: mk2_def at2_def)

lemma wf3_stack12: "wf3 stack12"
  by (simp add: wf3_def stack12_def)

lemma dims_stack12 [simp]: "dim0 stack12 = Suc 0" "dim1 stack12 = 2" "dim2 stack12 = Suc 0"
  by (simp_all add: stack12_def)

lemma dims_stack11 [simp]: "dim0 stack11 = Suc 0" "dim1 stack11 = Suc 0" "dim2 stack11 = Suc 0"
  by (simp_all add: stack11_def)

lemma demo_ringSlice_1x1:
  "nrows im = 1 \<Longrightarrow> ncols im = 1 \<Longrightarrow>
   ringSlice demoPrims 1 w 2 (m, im) = (0, mk2 1 1 (\<lambda>i j. 2 * at2 im 0 0))"
  apply (simp add: ringSlice_def py_range_def dec_step_def damp_step_def rec_step_def demoPrims_def
    dampBand_def fftshift_def ifftshift_def crop2_def damp_def y_hat_def dampf_def Let_def
    fftshift_ix_def ifftshift_ix_def)
  apply (rule mk2_cong)
  apply (simp add: mk2_def at2_def)
  done


lemma demo_processed_1x1:
  "dim0 d = Suc 0 \<Longrightarrow> dim2 d = Suc 0 \<Longrightarrow>
   processed demoPrims 1 w 2 d m = mk2 (Suc 0) (Suc 0) (\<lambda>i j. 2 * at3 d 0 m 0)"
  using demo_ringSlice_1x1[of "getSlice d m" w m]
  by (simp add: processed_def getSlice_def crop2_mk2_same)


lemma fits_stack12: "fits demoPrims 1 w 2 stack12"
  by (simp add: fits_def list_all_iff demo_processed_1x1 broadcastable_def)


lemma assign_1x1:
  assumes "dim0 d = Suc 0" "dim2 d = Suc 0" "dim1 d = 2"
  shows "assignSlice d 0 (mk2 (Suc 0) (Suc 0) (\<lambda>i j. x))
     = Inr (d\<lparr>cells3 := [[[x], [at3 d 0 1 0]]]\<rparr>)"
  using assms by (simp add: assignSlice_def broadcastable_def bat2_def upt_2)

lemma demo_pass_0:
  "ringBody demoPrims 1 ''db10'' 2 stack12 0 = Inr (stack12\<lparr>cells3 := [[[2], [2]]]\<rparr>)"
  apply (simp add: ringBody_eq target_def demo_processed_1x1 assign_1x1)
  apply (simp add: stack12_def at3_def)
  done

lemma demo_pass_1:
  "ringBody demoPrims 1 ''db10'' 2 (stack12\<lparr>cells3 := [[[2], [2]]]\<rparr>) (Suc 0)
     = Inr (stack12\<lparr>cells3 := [[[4], [2]]]\<rparr>)"
  apply (simp add: ringBody_eq target_def demo_processed_1x1 assign_1x1)
  apply (simp add: stack12_def at3_def)
  done

lemma removeRings_last_slice_to_first:
  assumes "1 \<le> level" "fits P level wname sigma d" "0 < dim1 d"
  shows "\<exists>d'. ringLoop (ringBody P level wname sigma) [0..<dim1 d] d = (None, d')
     \<and> same_shape d' d
     \<and> getSlice d' 0 = mk2 (dim0 d) (dim2 d) (bat2 (processed P level wname sigma d (dim1 d - 1)))
     \<and> (\<forall>j. 0 < j \<and> j < dim1 d \<longrightarrow> getSlice d' j = getSlice d j)"
proof -
  let ?I = "\<lambda>k x. agree_from d k x
     \<and> (\<forall>j. 0 < j \<and> j < dim1 d \<longrightarrow> getSlice x j = getSlice d j)
     \<and> (0 < k \<longrightarrow> getSlice x 0 = mk2 (dim0 d) (dim2 d) (bat2 (processed P level wname sigma d (k - 1))))"
  have t: "target level m = 0" for m using assms(1) by (simp add: target_def)
  have "\<exists>d'. ringLoop (ringBody P level wname sigma) [0..<dim1 d] d = (None, d') \<and> ?I (dim1 d) d'"
  proof (rule ringLoop_upt[where I = ?I])
    show "0 \<le> dim1 d" by simp
    show "?I 0 d" by (simp add: agree_from_def same_shape_def)
  next
    fix m x assume m: "m < dim1 d" and x: "?I m x"
    have bc: "broadcastable (processed P level wname sigma d m) (dim0 d) (dim2 d)"
      using assms(2) m by (simp add: fits_def list_all_iff)
    from x have ag: "agree_from d m x" by simp
    from ringBody_step[OF bc m ag] obtain x' where x':
      "ringBody P level wname sigma x m = Inr x'" "agree_from d (Suc m) x'"
      "getSlice x' 0 = mk2 (dim0 d) (dim2 d) (bat2 (processed P level wname sigma d m))"
      "\<forall>j. j < dim1 d \<and> j \<noteq> 0 \<longrightarrow> getSlice x' j = getSlice x j"
      unfolding t by blast
    have "\<forall>j. 0 < j \<and> j < dim1 d \<longrightarrow> getSlice x' j = getSlice d j"
      using x'(4) x by simp
    with x' show "\<exists>x'. ringBody P level wname sigma x m = Inr x' \<and> ?I (Suc m) x'"
      by auto
  qed
  then show ?thesis using assms(3) by (auto simp: agree_from_def)
qed

text \<open>
  C1 fails on the code. The inner loops bind the variable \<open>m\<close> of the outer loop; after
  them \<open>m\<close> is 0 whenever \<open>level \<ge> 1\<close>, so every pass writes slice 0 and leaves the
  slice it decomposed as it was. On a stack of two slices \<open>[1]\<close> and \<open>[2]\<close>, with
  primitives under which decomposing, damping and reconstructing doubles a slice, the
  code ends with the slices \<open>[4]\<close> and \<open>[2]\<close>; writing each result to the slice it came
  from would give \<open>[2]\<close> and \<open>[4]\<close>.
\<close>

theorem removeRings_writes_slice_0:
  "removeRings demoPrims 1 ''db10'' 2 (mkRead stack12 0)
     = (None, (mkRead stack12 0)\<lparr>data := stack12\<lparr>cells3 := [[[4], [2]]]\<rparr>\<rparr>)"
  by (simp add: removeRings_def mkRead_def py_range_2 demo_pass_0 demo_pass_1)

theorem removeRings_level0_identity_witness:
  "wf3 (data (mkRead stack12 0))
   \<and> removeRings demoPrims 0 ''db10'' 2 (mkRead stack12 0) = (None, mkRead stack12 0)"
  using removeRings_level0_identity[of "mkRead stack12 0" demoPrims "''db10''" 2] wf3_stack12
  by (simp add: mkRead_def)

theorem removeRings_shape_witness:
  "wf3 (data (mkRead stack12 0))
   \<and> same_shape (data (snd (removeRings demoPrims 1 ''db10'' 2 (mkRead stack12 0)))) (data (mkRead stack12 0))
   \<and> wf3 (data (snd (removeRings demoPrims 1 ''db10'' 2 (mkRead stack12 0))))"
  using removeRings_shape[of "mkRead stack12 0" demoPrims 1 "''db10''" 2
      "fst (removeRings demoPrims 1 ''db10'' 2 (mkRead stack12 0))"
      "snd (removeRings demoPrims 1 ''db10'' 2 (mkRead stack12 0))"] wf3_stack12
  by (simp add: mkRead_def)



section \<open>The damping profile\<close>

lemma fftshift_ix_dc: "0 < n \<Longrightarrow> fftshift_ix n (n div 2) = 0"
proof -
  assume "0 < n"
  have "n div 2 + (n + 1) div 2 = n" by presburger
  then show ?thesis by (simp add: fftshift_ix_def)
qed

lemma fftshift_ix_dc_unique:
  assumes "i < n" "fftshift_ix n i = 0"
  shows "i = n div 2"
proof -
  have "(i + (n + 1) div 2) mod n = 0" using assms(2) by (simp add: fftshift_ix_def)
  then have dvd: "n dvd i + (n + 1) div 2" by presburger
  from dvd obtain k where k: "i + (n + 1) div 2 = n * k" ..
  have "i + (n + 1) div 2 < n * 2" using assms(1) by presburger
  then have "k < 2" unfolding k by simp
  moreover have "0 < i + (n + 1) div 2" using assms(1) by presburger
  then have "0 < k" unfolding k by simp
  ultimately have "k = 1" by simp
  with k have "i + (n + 1) div 2 = n" by simp
  then show ?thesis by presburger
qed

lemma y_hat_nth: "i < my \<Longrightarrow> y_hat my ! i = (2 * real i + 1 - real my) / 2"
  by (simp add: y_hat_def)

lemma damp_nth: "i < my \<Longrightarrow> damp sigma my ! i = dampf sigma (y_hat my ! i)"
  by (simp add: damp_def y_hat_def)

lemma y_hat_dc_odd: "odd my \<Longrightarrow> y_hat my ! (my div 2) = 0"
proof -
  assume o: "odd my"
  then obtain k where k: "my = 2 * k + 1" by (auto elim: oddE)
  then have "my div 2 = k" by simp
  with k show ?thesis by (simp add: y_hat_nth)
qed

lemma y_hat_dc_even: "even my \<Longrightarrow> 0 < my \<Longrightarrow> y_hat my ! (my div 2) = 1 / 2"
proof -
  assume "even my" "0 < my"
  then obtain k where k: "my = 2 * k" "0 < k" by (auto elim: evenE)
  then have "my div 2 = k" by simp
  with k show ?thesis by (simp add: y_hat_nth)
qed

lemma dampf_zero_iff: "sigma \<noteq> 0 \<Longrightarrow> dampf sigma y = 0 \<longleftrightarrow> y = 0"
  by (simp add: dampf_def)

lemma fftshift_dc_row:
  "0 < nrows a \<Longrightarrow> j < ncols a \<Longrightarrow>
   at2 (fftshift a) (nrows a div 2) j = at2 a 0 (fftshift_ix (ncols a) j)"
  by (simp add: fftshift_def fftshift_ix_dc)

lemma upt_4: "[0..<4] = [0, 1, 2, 3]"
  by (simp add: upt_rec)

lemma damp_dc_parity:
  assumes "0 < sigma" "0 < my"
  shows "damp sigma my ! (my div 2) = 0 \<longleftrightarrow> odd my"
proof -
  have h: "my div 2 < my" using assms(2) by simp
  have s: "sigma \<noteq> 0" using assms(1) by simp
  show ?thesis
  proof (cases "odd my")
    case True
    then show ?thesis using h s by (simp add: damp_nth y_hat_dc_odd dampf_zero_iff)
  next
    case False
    then have "y_hat my ! (my div 2) = 1 / 2" using assms(2) by (simp add: y_hat_dc_even)
    then show ?thesis using False h s by (simp add: damp_nth dampf_zero_iff)
  qed
qed

text \<open>
  C5 fails on the code for a sub-band of even height. After \<open>fftshift\<close> the zero
  frequency is row \<open>my div 2\<close>. The grid \<open>y_hat\<close> holds 0 on that row for an odd height
  (the damping there is 0, as for 5 rows), but for an even height it is half a sample
  off: with 4 rows and \<open>sigma = 2\<close> it is \<open>-3/2, -1/2, 1/2, 3/2\<close>, the damping on the
  zero-frequency row is \<open>1 - exp (-1/32)\<close>, not 0, and it is the same as on the row of
  frequency -1.
\<close>

theorem damp_even_height:
  "fftshift_ix 4 (4 div 2) = 0
   \<and> y_hat 4 = [- 3 / 2, - 1 / 2, 1 / 2, 3 / 2]
   \<and> damp 2 4 ! (4 div 2) = 1 - exp (- 1 / 32)
   \<and> damp 2 4 ! (4 div 2) \<noteq> 0
   \<and> damp 2 4 ! 1 = damp 2 4 ! 2
   \<and> damp 2 5 ! (5 div 2) = 0"
proof -
  have y: "y_hat 4 = [- 3 / 2, - 1 / 2, 1 / 2, 3 / 2]"
    by (simp add: y_hat_def upt_4)
  have d: "damp 2 4 = [dampf 2 (- 3 / 2), dampf 2 (- 1 / 2), dampf 2 (1 / 2), dampf 2 (3 / 2)]"
    by (simp add: damp_def y)
  have h: "dampf 2 (1 / 2) = 1 - exp (- 1 / 32)" "dampf 2 (- 1 / 2) = 1 - exp (- 1 / 32)"
    by (simp_all add: dampf_def power2_eq_square)
  have nz: "dampf 2 (1 / 2) \<noteq> 0" by (simp add: dampf_zero_iff)
  have o: "damp 2 5 ! (5 div 2) = 0"
    using damp_nth[of "5 div 2" 5 2] y_hat_dc_odd[of 5] by (simp add: dampf_def)
  have i: "fftshift_ix 4 (4 div 2) = 0" by (simp add: fftshift_ix_def)
  have e: "(4::nat) div 2 = 2" by simp
  show ?thesis unfolding e using y d h nz o i[unfolded e] by simp
qed


section \<open>The histogram\<close>

lemma bin_edge_0 [simp]: "bin_edge mn mx bins 0 = mn"
  by (simp add: bin_edge_def)

lemma bin_edge_last [simp]: "0 < bins \<Longrightarrow> bin_edge mn mx bins bins = mx"
  by (simp add: bin_edge_def)

lemma bin_edge_mono: "mn < mx \<Longrightarrow> 0 < bins \<Longrightarrow> i \<le> j \<Longrightarrow> bin_edge mn mx bins i \<le> bin_edge mn mx bins j"
  by (simp add: bin_edge_def divide_right_mono mult_left_mono)

lemma half_open_prefix:
  assumes "mn < mx" "0 < bins"
  shows "sum_list (map (\<lambda>b. ind (bin_edge mn mx bins b \<le> x \<and> x < bin_edge mn mx bins (Suc b))) [0..<k])
     = ind (mn \<le> x \<and> x < bin_edge mn mx bins k)"
proof (induction k)
  case 0
  then show ?case by (simp add: ind_def)
next
  case (Suc k)
  have "mn \<le> bin_edge mn mx bins k" "bin_edge mn mx bins k \<le> bin_edge mn mx bins (Suc k)"
    using bin_edge_mono[OF assms, of 0 k] bin_edge_mono[OF assms, of k "Suc k"] by simp_all
  then show ?case using Suc by (auto simp: ind_def)
qed

lemma in_bin_total:
  assumes "mn < mx" "0 < bins"
  shows "sum_list (map (\<lambda>b. ind (in_bin mn mx bins b x)) [0..<bins]) = ind (mn \<le> x \<and> x \<le> mx)"
proof -
  obtain k where k: "bins = Suc k" using assms(2) by (cases bins) auto
  have eq: "map (\<lambda>b. ind (in_bin mn mx bins b x)) [0..<k]
      = map (\<lambda>b. ind (bin_edge mn mx bins b \<le> x \<and> x < bin_edge mn mx bins (Suc b))) [0..<k]"
    using k by (auto simp: in_bin_def)
  have pre: "sum_list (map (\<lambda>b. ind (in_bin mn mx bins b x)) [0..<k])
      = ind (mn \<le> x \<and> x < bin_edge mn mx bins k)"
    unfolding eq by (rule half_open_prefix[OF assms])
  have last: "ind (in_bin mn mx bins k x) = ind (bin_edge mn mx bins k \<le> x \<and> x \<le> mx)"
    using k assms by (simp add: in_bin_def)
  have "mn \<le> bin_edge mn mx bins k" "bin_edge mn mx bins k \<le> mx"
    using bin_edge_mono[OF assms, of 0 k] bin_edge_mono[OF assms, of k bins] assms k by simp_all
  then have "ind (mn \<le> x \<and> x < bin_edge mn mx bins k) + ind (bin_edge mn mx bins k \<le> x \<and> x \<le> mx)
      = ind (mn \<le> x \<and> x \<le> mx)"
    by (auto simp: ind_def)
  then show ?thesis using pre last by (simp add: k)
qed

lemma length_filter_ind: "length (filter P xs) = sum_list (map (\<lambda>x. ind (P x)) xs)"
  by (induction xs) (simp_all add: ind_def)

lemma hist_total:
  assumes "mn < mx" "0 < bins"
  shows "sum_list (map (\<lambda>b. length (filter (in_bin mn mx bins b) a)) [0..<bins])
     = length (filter (\<lambda>x. mn \<le> x \<and> x \<le> mx) a)"
proof (induction a)
  case Nil
  then show ?case by simp
next
  case (Cons x a)
  have "sum_list (map (\<lambda>b. length (filter (in_bin mn mx bins b) (x # a))) [0..<bins])
      = sum_list (map (\<lambda>b. ind (in_bin mn mx bins b x) + length (filter (in_bin mn mx bins b) a)) [0..<bins])"
    by (intro arg_cong[where f = sum_list] map_cong) (simp_all add: ind_def)
  also have "\<dots> = sum_list (map (\<lambda>b. ind (in_bin mn mx bins b x)) [0..<bins])
      + sum_list (map (\<lambda>b. length (filter (in_bin mn mx bins b) a)) [0..<bins])"
    by (simp add: sum_list_addf)
  also have "\<dots> = ind (mn \<le> x \<and> x \<le> mx) + length (filter (\<lambda>x. mn \<le> x \<and> x \<le> mx) a)"
    using in_bin_total[OF assms] Cons.IH by simp
  finally show ?case by (simp add: ind_def)
qed

lemma np_histogram_total:
  assumes "lo < hi" "np_histogram a 64 lo hi = Inr histr"
  shows "length histr = 64 \<and> sum_list histr = length (filter (\<lambda>x. lo \<le> x \<and> x \<le> hi) a)"
  using assms hist_total[of lo hi 64 a] by (auto simp: np_histogram_def)


section \<open>The state of optimizeCenter\<close>

lemma tracks_init: "tracks self (init_state self)"
  by (simp add: tracks_def init_state_def)

lemma tracks_recon_run: "tracks self st \<Longrightarrow> tracks self (recon_run E s st)"
  by (simp add: tracks_def recon_run_def)

lemma costFunc_state:
  "snd (costFunc E s lo hi fs c st) =
     st\<lparr>stack := (stack st)\<lparr>center := c\<rparr>,
        recon_data := reconstruct E ((stack st)\<lparr>center := c\<rparr>) s,
        runs := runs st @ [(c, s)],
        evals := evals st @ [c]\<rparr>"
  by (simp add: costFunc_def Let_def recon_run_def split: sum.splits)

lemma tracks_costFunc: "tracks self st \<Longrightarrow> tracks self (snd (costFunc E s lo hi fs c st))"
  by (simp add: costFunc_state tracks_def)

lemma tracks_run_strategy:
  assumes "\<And>c st. tracks self st \<Longrightarrow> tracks self (snd (f c st))"
  shows "tracks self st \<Longrightarrow> tracks self (snd (run_strategy f strat st))"
proof (induction strat arbitrary: st)
  case (Return x)
  then show ?case by simp
next
  case (Evaluate c k)
  obtain r st' where f: "f c st = (r, st')" by (cases "f c st")
  with assms[OF Evaluate.prems, of c] have t: "tracks self st'" by simp
  show ?case
  proof (cases r)
    case (Inl e)
    with f t show ?thesis by simp
  next
    case (Inr v)
    have "tracks self (snd (run_strategy f (k v) st'))"
      using Evaluate.IH[of "k v" st'] t by blast
    with f Inr show ?thesis by simp
  qed
qed

lemma probe_bounds_state: "snd (probe_bounds E s hmin hmax st) = recon_run E s st"
  by (simp add: probe_bounds_def Let_def split: sum.splits)


section \<open>The cost function\<close>

lemma dot_map: "dot (map f xs) (map h xs) = (\<Sum>x\<leftarrow>xs. f x * h x)"
  by (induction xs) (simp_all add: dot_def)

lemma np_histogram_ok:
  "lo < hi \<Longrightarrow> np_histogram a bins lo hi
     = Inr (map (\<lambda>b. length (filter (in_bin lo hi bins b) a)) [0..<bins])"
  by (simp add: np_histogram_def)

lemma np_histogram_Inr: "lo \<le> hi \<Longrightarrow> \<exists>h. np_histogram a bins lo hi = Inr h"
  by (simp add: np_histogram_def Let_def)

lemma costFunc_value:
  assumes "histMin < histMax"
  shows "fst (costFunc E sliceNo histMin histMax filterSigma c st) =
    Inr (- (\<Sum>b\<leftarrow>[0..<64].
       (real (length (filter (in_bin histMin histMax 64 b)
            (gaussian_filter E (reconstruct E ((stack st)\<lparr>center := c\<rparr>) sliceNo) filterSigma)))
          / real (length (reconstruct E ((stack st)\<lparr>center := c\<rparr>) sliceNo)) + 1 / 10 ^ 12)
       * log 2 (real (length (filter (in_bin histMin histMax 64 b)
            (gaussian_filter E (reconstruct E ((stack st)\<lparr>center := c\<rparr>) sliceNo) filterSigma)))
          / real (length (reconstruct E ((stack st)\<lparr>center := c\<rparr>) sliceNo)) + 1 / 10 ^ 12)))"
  using assms
  by (simp add: costFunc_def costHist_def Let_def recon_run_def np_histogram_ok dot_map comp_def del: upt.simps)


text \<open>
  C2, as the code has it. With \<open>histMin < histMax\<close> and a slice that has pixels, the
  cost function sets the center of the stack to the candidate, reconstructs the slice,
  and counts the smoothed values in 64 bins over \<open>[histMin, histMax]\<close>. A value outside
  that range is dropped, not clipped: the counts add up to the number of smoothed values
  within the range. Each count is divided by the number of pixels of the reconstructed
  slice, \<open>10\<^sup>-\<^sup>1\<^sup>2\<close> is added, and the result is \<open>- \<Sum> p log\<^sub>2 p\<close>.
\<close>

theorem costFunc_entropy:
  fixes E :: env and st :: ostate and sliceNo :: int and c histMin histMax filterSigma :: real
  defines "r \<equiv> reconstruct E ((stack st)\<lparr>center := c\<rparr>) sliceNo"
  defines "sm \<equiv> gaussian_filter E r filterSigma"
  defines "n \<equiv> (\<lambda>b. length (filter (in_bin histMin histMax 64 b) sm))"
  defines "p \<equiv> (\<lambda>b. real (n b) / real (length r) + 1 / 10 ^ 12)"
  assumes "histMin < histMax" and "r \<noteq> []"
  shows "costHist E (snd (costFunc E sliceNo histMin histMax filterSigma c st)) histMin histMax filterSigma
       = Inr (map n [0..<64])
    \<and> (\<Sum>b\<leftarrow>[0..<64]. n b) = length (filter (\<lambda>x. histMin \<le> x \<and> x \<le> histMax) sm)
    \<and> fst (costFunc E sliceNo histMin histMax filterSigma c st)
       = Inr (- (\<Sum>b\<leftarrow>[0..<64]. p b * log 2 (p b)))"
proof -
  have "recon_data (snd (costFunc E sliceNo histMin histMax filterSigma c st)) = r"
    by (simp add: costFunc_state r_def)
  then have 1: "costHist E (snd (costFunc E sliceNo histMin histMax filterSigma c st)) histMin histMax filterSigma
       = Inr (map n [0..<64])"
    using assms(5) unfolding costHist_def n_def sm_def by (simp only: np_histogram_ok)
  have 2: "(\<Sum>b\<leftarrow>[0..<64]. n b) = length (filter (\<lambda>x. histMin \<le> x \<and> x \<le> histMax) sm)"
    unfolding n_def using hist_total[OF assms(5), of 64 sm] by simp
  have 3: "fst (costFunc E sliceNo histMin histMax filterSigma c st)
       = Inr (- (\<Sum>b\<leftarrow>[0..<64]. p b * log 2 (p b)))"
    unfolding p_def n_def sm_def r_def by (rule costFunc_value[OF assms(5)])
  from 1 2 3 show ?thesis by blast
qed

lemma in_bin_above: "0 < bins \<Longrightarrow> mn < mx \<Longrightarrow> b < bins \<Longrightarrow> mx < x \<Longrightarrow> \<not> in_bin mn mx bins b x"
  using bin_edge_mono[of mn mx bins "Suc b" bins]
  by (auto simp: in_bin_def)

lemma map_const_replicate: "(\<And>x. x \<in> set xs \<Longrightarrow> f x = c) \<Longrightarrow> map f xs = replicate (length xs) c"
  by (induction xs) auto

lemma hist_above: "mn < mx \<Longrightarrow> mx < x \<Longrightarrow> np_histogram [x] 64 mn mx = Inr (replicate 64 0)"
proof -
  assume a: "mn < mx" "mx < x"
  have "map (\<lambda>b. length (filter (in_bin mn mx 64 b) [x])) [0..<64] = replicate (length [0..<64::nat]) 0"
    by (rule map_const_replicate) (use a in_bin_above[of 64 mn mx _ x] in auto)
  then show ?thesis using a by (simp add: np_histogram_ok del: upt.simps)
qed

text \<open>
  C2 as stated fails: a slice whose one pixel has the value 5, histogrammed over
  \<open>[0, 1]\<close>, leaves every bin empty; the pixel is counted in no bin.
\<close>

theorem costFunc_outlier_counterexample:
  "recon_data (snd (costFunc demoEnv 0 0 1 2 5 (init_state (mkRead stack11 0)))) = [5]
   \<and> costHist demoEnv (snd (costFunc demoEnv 0 0 1 2 5 (init_state (mkRead stack11 0)))) 0 1 2
       = Inr (replicate 64 0)"
proof -
  have r: "recon_data (snd (costFunc demoEnv 0 0 1 2 5 (init_state (mkRead stack11 0)))) = [5]"
    by (simp add: costFunc_state demoEnv_def)
  have "np_histogram [5] 64 0 1 = Inr (replicate 64 0)" by (rule hist_above) simp_all
  then show ?thesis unfolding costHist_def r by (simp add: demoEnv_def r)
qed

theorem costFunc_entropy_witness:
  "(0::real) < 2
   \<and> reconstruct demoEnv ((stack (init_state (mkRead stack11 0)))\<lparr>center := 1\<rparr>) 0 \<noteq> []
   \<and> (\<Sum>b\<leftarrow>[0..<64]. length (filter (in_bin 0 2 64 b) [1])) = 1"
proof -
  have h: "(0::real) < 2" by simp
  have r: "reconstruct demoEnv ((stack (init_state (mkRead stack11 0)))\<lparr>center := 1\<rparr>) 0 = [1]"
    by (simp add: demoEnv_def)
  then have ne: "reconstruct demoEnv ((stack (init_state (mkRead stack11 0)))\<lparr>center := 1\<rparr>) 0 \<noteq> []" by simp
  have g: "gaussian_filter demoEnv [1] 2 = [1]" by (simp add: demoEnv_def)
  from costFunc_entropy[OF h ne, of 2] show ?thesis
    unfolding r g using h ne r by simp
qed


section \<open>Validation, probe and frame of optimizeCenter\<close>

text \<open>
  A \<open>sliceNo\<close> above the number of slices, and an \<open>inCenter\<close> that is not a scalar, end
  the call with a ValueError (the spec's InvalidParameter) in the initial state: the
  stack as it was and no reconstruction run.
\<close>

lemma optimizeCenter_rejects:
  "(int (dim1 (data self)) < s \<longrightarrow>
        optimizeCenter E (Some s) inCenter histMin histMax tol filterSigma self
          = (Inl (ValueError ''sliceNo is higher than number of available slices.''), init_state self))
   \<and> (\<exists>msg. optimizeCenter E sliceNo (Some (NonScalar xs)) histMin histMax tol filterSigma self
          = (Inl (ValueError msg), init_state self))
   \<and> runs (init_state self) = [] \<and> evals (init_state self) = [] \<and> stack (init_state self) = self"
proof -
  have 2: "optimizeCenter E (Some s) inCenter histMin histMax tol filterSigma self
          = (Inl (ValueError ''sliceNo is higher than number of available slices.''), init_state self)"
    if "int (dim1 (data self)) < s"
    using that by (simp add: optimizeCenter_def check_sliceNo_def)
  have 3: "\<exists>msg. optimizeCenter E sliceNo (Some (NonScalar xs)) histMin histMax tol filterSigma self
          = (Inl (ValueError msg), init_state self)"
    by (cases "check_sliceNo (dim1 (data self)) sliceNo")
       (auto simp: optimizeCenter_def check_inCenter_def check_sliceNo_def split: option.splits if_splits)
  from 2 3 show ?thesis by (simp add: init_state_def)
qed

lemma sign_rule_min:
  "(if h < 0 then 2 * h else if h \<ge> 0 then (1 / 2) * h else h) = (if h < 0 then 2 * h else h / 2)"
  for h :: real
  by simp

lemma sign_rule_max:
  "(if h < 0 then (1 / 2) * h else if h \<ge> 0 then 2 * h else h) = (if h < 0 then h / 2 else 2 * h)"
  for h :: real
  by simp

lemma derive_histMin_None:
  "rd \<noteq> [] \<Longrightarrow> derive_histMin None rd
     = Inr (if Min (set rd) < 0 then 2 * Min (set rd) else Min (set rd) / 2)"
  unfolding derive_histMin_def np_min_def sign_rule_min by simp

lemma derive_histMax_None:
  "rd \<noteq> [] \<Longrightarrow> derive_histMax None rd
     = Inr (if Max (set rd) < 0 then Max (set rd) / 2 else 2 * Max (set rd))"
  unfolding derive_histMax_def np_max_def sign_rule_max by simp

text \<open>
  C3, as the code has it. The probe is one run of the reconstruction on the stack as it
  is, that is at the center the stack object holds; \<open>inCenter\<close> is passed to the
  optimizer only. A bound that is not given is derived from the probe: twice the minimum
  when it is negative and half of it otherwise; half the maximum when it is negative and
  twice it otherwise. Calling optimizeCenter without a bound is calling it with the
  derived one.
\<close>

theorem probe_bounds_rule:
  fixes E :: env and self :: read and s :: int and histMin histMax :: "real option"
  defines "probe \<equiv> reconstruct E self s"
  defines "lo \<equiv> (case histMin of Some h \<Rightarrow> h
      | None \<Rightarrow> if Min (set probe) < 0 then 2 * Min (set probe) else Min (set probe) / 2)"
  defines "hi \<equiv> (case histMax of Some h \<Rightarrow> h
      | None \<Rightarrow> if Max (set probe) < 0 then Max (set probe) / 2 else 2 * Max (set probe))"
  assumes "check_sliceNo (dim1 (data self)) sliceNo = Inr s" and "probe \<noteq> []"
  shows "probe_bounds E s histMin histMax (init_state self)
       = (Inr (lo, hi), (init_state self)\<lparr>recon_data := probe, runs := [(center self, s)]\<rparr>)
    \<and> optimizeCenter E sliceNo inCenter histMin histMax tol filterSigma self
       = optimizeCenter E sliceNo inCenter (Some lo) (Some hi) tol filterSigma self"
proof -
  have rr: "recon_run E s (init_state self)
      = (init_state self)\<lparr>recon_data := probe, runs := [(center self, s)]\<rparr>"
    by (simp add: recon_run_def init_state_def probe_def)
  have mn: "derive_histMin histMin probe = Inr lo"
    using derive_histMin_None[OF assms(5)] by (cases histMin) (simp_all add: lo_def derive_histMin_def)
  have mx: "derive_histMax histMax probe = Inr hi"
    using derive_histMax_None[OF assms(5)] by (cases histMax) (simp_all add: hi_def derive_histMax_def)
  have pb: "probe_bounds E s hmin hmax (init_state self)
      = (case derive_histMin hmin probe of Inl e \<Rightarrow> (Inl e, recon_run E s (init_state self))
         | Inr l \<Rightarrow> (case derive_histMax hmax probe of Inl e \<Rightarrow> (Inl e, recon_run E s (init_state self))
            | Inr h \<Rightarrow> (Inr (l, h), recon_run E s (init_state self))))" for hmin hmax
    by (simp add: probe_bounds_def Let_def rr split: sum.splits)
  have 1: "probe_bounds E s histMin histMax (init_state self)
       = (Inr (lo, hi), (init_state self)\<lparr>recon_data := probe, runs := [(center self, s)]\<rparr>)"
    by (simp add: pb mn mx rr)
  have 2: "probe_bounds E s (Some lo) (Some hi) (init_state self)
       = (Inr (lo, hi), (init_state self)\<lparr>recon_data := probe, runs := [(center self, s)]\<rparr>)"
    by (simp add: pb rr derive_histMin_def derive_histMax_def)
  have "optimizeCenter E sliceNo inCenter histMin histMax tol filterSigma self
       = optimizeCenter E sliceNo inCenter (Some lo) (Some hi) tol filterSigma self"
    unfolding optimizeCenter_def Let_def assms(4) by (simp add: 1 2 split: sum.splits)
  with 1 show ?thesis by simp
qed

text \<open>
  C9. However optimizeCenter ends, the stack object differs from the one it was given
  in its center at most (the data array is the same), every call of the cost function
  sets the center to its candidate, and the center at the end is the last candidate
  evaluated (the center it had, when none was).
\<close>

theorem optimizeCenter_frame:
  assumes "optimizeCenter E sliceNo inCenter histMin histMax tol filterSigma self = (r, st)"
  shows "data (stack st) = data self
    \<and> stack st = self\<lparr>center := center (stack st)\<rparr>
    \<and> center (stack st) = last (center self # evals st)
    \<and> center (stack (snd (costFunc E s lo hi filterSigma c st'))) = c
    \<and> evals (snd (costFunc E s lo hi filterSigma c st')) = evals st' @ [c]"
proof -
  have "tracks self (snd (optimizeCenter E sliceNo inCenter histMin histMax tol filterSigma self))"
  proof (cases "check_sliceNo (dim1 (data self)) sliceNo")
    case (Inl e)
    then show ?thesis by (simp add: optimizeCenter_def tracks_init)
  next
    case s: (Inr s)
    show ?thesis
    proof (cases "check_inCenter (dim2 (data self)) inCenter")
      case (Inl e)
      with s show ?thesis by (simp add: optimizeCenter_def tracks_init)
    next
      case x0: (Inr x0)
      obtain b st1 where p: "probe_bounds E s histMin histMax (init_state self) = (b, st1)"
        by (cases "probe_bounds E s histMin histMax (init_state self)")
      then have "st1 = recon_run E s (init_state self)"
        using probe_bounds_state[of E s histMin histMax "init_state self"] by simp
      then have t1: "tracks self st1" by (simp add: tracks_recon_run tracks_init)
      show ?thesis
      proof (cases b)
        case (Inl e)
        with s x0 p t1 show ?thesis by (simp add: optimizeCenter_def)
      next
        case (Inr lh)
        obtain lo hi where lh: "lh = (lo, hi)" by (cases lh)
        have "tracks self (snd (run_strategy (costFunc E s lo hi filterSigma) (minimize E x0 tol) st1))"
          using t1 by (intro tracks_run_strategy tracks_costFunc)
        with s x0 p Inr lh show ?thesis by (simp add: optimizeCenter_def)
      qed
    qed
  qed
  with assms have "tracks self st" by simp
  then have eq: "stack st = self\<lparr>center := last (center self # evals st)\<rparr>" by (simp add: tracks_def)
  have c: "center (stack st) = last (center self # evals st)" by (subst eq) simp
  have d: "data (stack st) = data self" by (subst eq) simp
  from eq c have "stack st = self\<lparr>center := center (stack st)\<rparr>" by simp
  with c d show ?thesis by (simp add: costFunc_state)
qed


section \<open>Concrete evaluations of optimizeCenter\<close>

lemma costFunc_Inr:
  assumes "lo \<le> hi"
  shows "\<exists>v. costFunc E s lo hi fs c st =
     (Inr v, st\<lparr>stack := (stack st)\<lparr>center := c\<rparr>,
        recon_data := reconstruct E ((stack st)\<lparr>center := c\<rparr>) s,
        runs := runs st @ [(c, s)],
        evals := evals st @ [c]\<rparr>)"
proof -
  obtain h where "costHist E (recon_run E s (st\<lparr>stack := (stack st)\<lparr>center := c\<rparr>, evals := evals st @ [c]\<rparr>)) lo hi fs = Inr h"
    unfolding costHist_def using np_histogram_Inr[OF assms] by blast
  then have "\<exists>v. fst (costFunc E s lo hi fs c st) = Inr v" by (simp add: costFunc_def Let_def)
  then show ?thesis using costFunc_state[of E s lo hi fs c st] by (metis prod.collapse)
qed

lemma run_strategy_two:
  "f a st = (Inr v1, st1) \<Longrightarrow> f b st1 = (Inr v2, st2) \<Longrightarrow>
   run_strategy f (Evaluate a (\<lambda>x. Evaluate b (\<lambda>y. Return z))) st = (Inr z, st2)"
  by simp

lemma demo_search:
  assumes "lo \<le> hi"
  shows "run_strategy (costFunc demoEnv s lo hi fs) (minimize demoEnv x0 tol) st
     = (Inr x0, st\<lparr>stack := (stack st)\<lparr>center := x0 + 1\<rparr>,
                   recon_data := [x0 + 1],
                   runs := runs st @ [(x0, s), (x0 + 1, s)],
                   evals := evals st @ [x0, x0 + 1]\<rparr>)"
proof -
  let ?f = "costFunc demoEnv s lo hi fs"
  let ?st1 = "st\<lparr>stack := (stack st)\<lparr>center := x0\<rparr>, recon_data := [x0],
        runs := runs st @ [(x0, s)], evals := evals st @ [x0]\<rparr>"
  let ?st2 = "st\<lparr>stack := (stack st)\<lparr>center := x0 + 1\<rparr>, recon_data := [x0 + 1],
        runs := runs st @ [(x0, s), (x0 + 1, s)], evals := evals st @ [x0, x0 + 1]\<rparr>"
  obtain v1 where v1: "?f x0 st = (Inr v1, ?st1)"
    using costFunc_Inr[OF assms, of demoEnv s fs x0 st] by (auto simp: demoEnv_def)
  obtain v2 where v2: "?f (x0 + 1) ?st1 = (Inr v2, ?st2)"
    using costFunc_Inr[OF assms, of demoEnv s fs "x0 + 1" ?st1] by (auto simp: demoEnv_def)
  have m: "minimize demoEnv x0 tol = Evaluate x0 (\<lambda>x. Evaluate (x0 + 1) (\<lambda>y. Return x0))"
    by (simp add: demoEnv_def)
  show ?thesis unfolding m by (rule run_strategy_two[OF v1 v2])
qed

lemma demo_probe:
  "probe_bounds demoEnv 0 None None (init_state (mkRead stack11 1))
     = (Inr (1 / 2, 2), (init_state (mkRead stack11 1))\<lparr>recon_data := [1], runs := [(1, 0)]\<rparr>)"
  by (simp add: probe_bounds_def Let_def recon_run_def init_state_def mkRead_def demoEnv_def
      derive_histMin_def derive_histMax_def np_min_def np_max_def)

lemma demo_optimize:
  "optimizeCenter demoEnv (Some 0) (Some (Scalar 3)) None None (1 / 2) 2 (mkRead stack11 1)
     = (Inr 3, \<lparr>stack = (mkRead stack11 1)\<lparr>center := 4\<rparr>, recon_data = [4],
                runs = [(1, 0), (3, 0), (4, 0)], evals = [3, 4]\<rparr>)"
proof -
  have c: "check_sliceNo (dim1 (data (mkRead stack11 1))) (Some 0) = Inr 0"
    "check_inCenter (dim2 (data (mkRead stack11 1))) (Some (Scalar 3)) = Inr 3"
    by (simp_all add: check_sliceNo_def check_inCenter_def)
  have le: "(1 / 2 :: real) \<le> 2" by simp
  show ?thesis
    unfolding optimizeCenter_def Let_def c
    by (simp add: demo_probe demo_search[OF le]) (simp add: init_state_def)
qed

text \<open>
  C3 as stated fails: with a stack whose center is 1 and \<open>inCenter = 3\<close>, the probe
  runs at 1; the runs at 3 and 4 are the optimizer's.
\<close>

theorem probe_center_counterexample:
  "runs (snd (optimizeCenter demoEnv (Some 0) (Some (Scalar 3)) None None (1 / 2) 2 (mkRead stack11 1)))
     = [(1, 0), (3, 0), (4, 0)]"
  by (simp add: demo_optimize)

theorem probe_bounds_rule_witness:
  "check_sliceNo (dim1 (data (mkRead stack11 1))) (Some 0) = Inr 0
   \<and> reconstruct demoEnv (mkRead stack11 1) 0 \<noteq> []
   \<and> probe_bounds demoEnv 0 None None (init_state (mkRead stack11 1))
       = (Inr (1 / 2, 2), (init_state (mkRead stack11 1))\<lparr>recon_data := [1], runs := [(1, 0)]\<rparr>)"
proof -
  have c: "check_sliceNo (dim1 (data (mkRead stack11 1))) (Some 0) = Inr 0"
    by (simp add: check_sliceNo_def)
  have r: "reconstruct demoEnv (mkRead stack11 1) 0 = [1]"
    by (simp add: demoEnv_def mkRead_def)
  then have ne: "reconstruct demoEnv (mkRead stack11 1) 0 \<noteq> []" by simp
  from probe_bounds_rule[OF c ne, of None None] show ?thesis
    unfolding r using c ne by (simp add: mkRead_def)
qed

text \<open>
  C7 fails on the code for an odd pixel extent. The docstring has the default of
  \<open>inCenter\<close> as half the number of pixels; \<^verbatim>\<open>numPixels / 2\<close> on two ints is Python 2's
  integer division. For a pixel extent of 5 the initial center handed to the optimizer
  is 2, not 5/2 (the optimizer of \<open>demoEnv\<close> returns the initial center it is given).
\<close>

theorem default_inCenter_odd_extent:
  "fst (optimizeCenter demoEnv None None (Some 0) (Some 10) (1 / 2) 2 (mkRead stack15 1)) = Inr 2
   \<and> real (dim2 (data (mkRead stack15 1))) / 2 = 5 / 2"
proof -
  have c: "check_sliceNo (dim1 (data (mkRead stack15 1))) None = Inr 0"
    "check_inCenter (dim2 (data (mkRead stack15 1))) None = Inr 2"
    by (simp_all add: check_sliceNo_def check_inCenter_def mkRead_def stack15_def)
  have p: "probe_bounds demoEnv 0 (Some 0) (Some 10) (init_state (mkRead stack15 1))
      = (Inr (0, 10), recon_run demoEnv 0 (init_state (mkRead stack15 1)))"
    by (simp add: probe_bounds_def Let_def derive_histMin_def derive_histMax_def)
  have le: "(0 :: real) \<le> 10" by simp
  have "fst (optimizeCenter demoEnv None None (Some 0) (Some 10) (1 / 2) 2 (mkRead stack15 1)) = Inr 2"
    unfolding optimizeCenter_def Let_def c by (simp add: p demo_search[OF le])
  then show ?thesis by (simp add: mkRead_def stack15_def)
qed

text \<open>
  The optimizer of \<open>demoEnv\<close> returns 3 and leaves the center of the stack at 4, the
  last candidate it evaluated.
\<close>

theorem optimizeCenter_frame_witness:
  "optimizeCenter demoEnv (Some 0) (Some (Scalar 3)) None None (1 / 2) 2 (mkRead stack11 1)
     = (Inr 3, \<lparr>stack = (mkRead stack11 1)\<lparr>center := 4\<rparr>, recon_data = [4],
                runs = [(1, 0), (3, 0), (4, 0)], evals = [3, 4]\<rparr>)
   \<and> data ((mkRead stack11 1)\<lparr>center := 4\<rparr>) = data (mkRead stack11 1)
   \<and> center ((mkRead stack11 1)\<lparr>center := 4\<rparr>) = last (center (mkRead stack11 1) # [3, 4])"
  using optimizeCenter_frame[OF demo_optimize] demo_optimize by simp


section \<open>The constant stack\<close>

lemma zeros_dims [simp]: "nrows (zeros r c) = r" "ncols (zeros r c) = c"
  by (simp_all add: zeros_def)

lemma at2_zeros [simp]: "i < r \<Longrightarrow> j < c \<Longrightarrow> at2 (zeros r c) i j = 0"
  by (simp add: zeros_def)

lemma fftshift_ix_less: "i < n \<Longrightarrow> fftshift_ix n i < n"
  by (simp add: fftshift_ix_def)

lemma ifftshift_ix_less: "i < n \<Longrightarrow> ifftshift_ix n i < n"
  by (simp add: ifftshift_ix_def)

lemma mk2_zeros: "(\<And>i j. i < r \<Longrightarrow> j < c \<Longrightarrow> f i j = 0) \<Longrightarrow> mk2 r c f = zeros r c"
  unfolding zeros_def by (rule mk2_cong)

lemma fftshift_zeros: "fftshift (zeros r c) = zeros r c"
  unfolding fftshift_def zeros_dims by (rule mk2_zeros) (simp add: fftshift_ix_less)

lemma ifftshift_zeros: "ifftshift (zeros r c) = zeros r c"
  unfolding ifftshift_def zeros_dims by (rule mk2_zeros) (simp add: ifftshift_ix_less)

lemma dampBand_zeros:
  assumes "fft0 P (zeros r c) = zeros r c" "ifft0 P (zeros r c) = zeros r c"
  shows "dampBand P sigma (zeros r c) = zeros r c"
proof -
  have m: "mk2 r c (\<lambda>i j. at2 (zeros r c :: complex array2) i j
        * complex_of_real (at2 (mk2 r c (\<lambda>i j. damp sigma r ! i)) i j)) = zeros r c"
    by (rule mk2_zeros) simp
  have re: "mk2 r c (\<lambda>i j. Re (at2 (zeros r c :: complex array2) i j)) = zeros r c"
    by (rule mk2_zeros) simp
  show ?thesis
    by (simp add: dampBand_def Let_def assms fftshift_zeros m ifftshift_zeros re)
qed

lemma wf3_ones344: "wf3 ones344"
  by (simp add: wf3_def ones344_def list_all_iff)

lemma dims_ones344 [simp]: "dim0 ones344 = 3" "dim1 ones344 = 4" "dim2 ones344 = 4"
  by (simp_all add: ones344_def)

lemma getSlice_ones344: "m < 4 \<Longrightarrow> getSlice ones344 m = ones34"
  unfolding getSlice_def ones34_def dims_ones344
  by (rule mk2_cong) (simp add: at3_def ones344_def)

lemma crop2_ones34: "crop2 ones34 3 4 = ones34"
  unfolding ones34_def by (rule crop2_mk2_same)

lemma py_range_1: "py_range 1 = [0]"
  by (simp add: py_range_def)

lemma ringSlice_level1:
  assumes "dwt2 P im wname = (a, (h, v, dd))"
  shows "ringSlice P 1 wname sigma (m, im)
     = (0, idwt2 P (crop2 a (nrows h) (ncols h), (h, dampBand P sigma v, dd)) wname)"
  by (simp add: ringSlice_def py_range_1 dec_step_def damp_step_def rec_step_def assms)

text \<open>
  C8. On the stack of shape 3 x 4 x 4 whose every element is 1, removeRings with
  \<open>level = 1\<close>, wavelet \<^verbatim>\<open>db10\<close> and \<open>sigma = 2\<close> returns normally and leaves the stack as
  it was, for all primitives that do on a constant slice what the transforms do: the
  vertical detail band of the slice is zero, the Fourier transforms take zero to zero,
  and the reconstruction, cropped, gives the slice back. (Floats being reals, the
  tolerance is zero. All slices are equal here, so the slice that a pass writes does not
  show.)
\<close>

theorem removeRings_constant_stack:
  assumes "data self = ones344"
    and "dwt2 P ones34 ''db10'' = (a, (h, v, dd))"
    and "v = zeros (nrows v) (ncols v)"
    and "fft0 P v = zeros (nrows v) (ncols v)"
    and "ifft0 P (zeros (nrows v) (ncols v)) = zeros (nrows v) (ncols v)"
    and "crop2 (idwt2 P (crop2 a (nrows h) (ncols h), (h, v, dd)) ''db10'') 3 4 = ones34"
  shows "removeRings P 1 ''db10'' 2 self = (None, self)"
proof -
  have dz: "dampBand P 2 v = v"
    using dampBand_zeros[of P "nrows v" "ncols v" 2] assms(3,4,5) by simp
  have pr: "processed P 1 ''db10'' 2 ones344 m = ones34" if "m < 4" for m
    using that by (simp add: processed_def getSlice_ones344 ringSlice_level1[OF assms(2)] dz assms(6))
  have body: "ringBody P 1 ''db10'' 2 ones344 m = Inr ones344" if "m < 4" for m
  proof -
    have "assignSlice ones344 0 (crop2 (getSlice ones344 0) (dim0 ones344) (dim2 ones344)) = Inr ones344"
      by (rule assignSlice_self) (simp_all add: wf3_ones344)
    then have "assignSlice ones344 0 ones34 = Inr ones344"
      by (simp add: getSlice_ones344 crop2_ones34)
    then show ?thesis using that by (simp add: ringBody_eq target_def pr)
  qed
  have "ringLoop (ringBody P 1 ''db10'' 2) (py_range (int (dim1 ones344))) ones344 = (None, ones344)"
    by (rule ringLoop_fixed) (simp add: py_range_def body)
  then show ?thesis using assms(1) by (simp add: removeRings_def)
qed


theorem removeRings_constant_stack_witness:
  "data (mkRead ones344 0) = ones344
   \<and> dwt2 zeroBandPrims ones34 ''db10'' = (ones34, (zeros 3 4, zeros 3 4, zeros 3 4))
   \<and> removeRings zeroBandPrims 1 ''db10'' 2 (mkRead ones344 0) = (None, mkRead ones344 0)"
proof -
  have d: "data (mkRead ones344 0) = ones344" by (simp add: mkRead_def)
  have n: "nrows ones34 = 3" "ncols ones34 = 4" by (simp_all add: ones34_def)
  have w: "dwt2 zeroBandPrims ones34 ''db10'' = (ones34, (zeros 3 4, zeros 3 4, zeros 3 4))"
    by (simp add: zeroBandPrims_def n)
  have z: "(zeros 3 4 :: real array2) = zeros (nrows (zeros 3 4 :: real array2)) (ncols (zeros 3 4 :: real array2))"
    by simp
  have f: "fft0 zeroBandPrims (zeros 3 4) = zeros (nrows (zeros 3 4 :: real array2)) (ncols (zeros 3 4 :: real array2))"
    unfolding zeros_dims by (simp add: zeroBandPrims_def) (rule mk2_zeros, simp)
  have i: "ifft0 zeroBandPrims (zeros (nrows (zeros 3 4 :: real array2)) (ncols (zeros 3 4 :: real array2)))
      = zeros (nrows (zeros 3 4 :: real array2)) (ncols (zeros 3 4 :: real array2))"
    by (simp add: zeroBandPrims_def)
  have "idwt2 zeroBandPrims (crop2 ones34 3 4, (zeros 3 4, zeros 3 4, zeros 3 4)) ''db10'' = ones34"
    unfolding crop2_ones34 by (simp add: zeroBandPrims_def n) (simp add: ones34_def, rule mk2_cong, simp)
  then have r: "crop2 (idwt2 zeroBandPrims (crop2 ones34 (nrows (zeros 3 4 :: real array2))
        (ncols (zeros 3 4 :: real array2)), (zeros 3 4, zeros 3 4, zeros 3 4)) ''db10'') 3 4 = ones34"
    by (simp add: crop2_ones34)
  from removeRings_constant_stack[OF d w z f i r] d w show ?thesis by simp
qed


end
